theory Spec2Isabelle
  imports Complex_Main "HOL-Library.Product_Lexorder" "HOL-Library.AList"
begin

section \<open>Composite equity performance: the data fetcher (fetch\_data.py)\<close>

text \<open>
  A shallow embedding of \<^verbatim>\<open>src/fetch_data.py\<close>. The program reads its prices from the
  network and its arithmetic is IEEE double arithmetic inside pandas; the embedding fixes
  the following conventions.
  \<^item> A date string \<^verbatim>\<open>'YYYY-MM-DD'\<close> is the triple (year, month, day). Triples are
    ordered lexicographically, as the strings are. \<^verbatim>\<open>pd.to_datetime\<close> raises on a
    string that is not a calendar day of the years 1 to 9999; the narrower range of
    nanosecond timestamps is not modelled.
  \<^item> A finite float is an exact rational, NaN (a missing value) is \<open>None\<close>. Rounding to
    two decimals is round-half-even on the exact value. The rounding errors of double
    arithmetic are not modelled, and no statement is made about a value that depends on
    them.
  \<^item> A Python dict is an association list in insertion order; \<open>map_of\<close> is the lookup,
    \<open>AList.update\<close> is the assignment \<^verbatim>\<open>d[k] = v\<close>.
  \<^item> The download (\<^verbatim>\<open>yf.download(...)['Close']\<close>) is a parameter of the model.
\<close>

subsection \<open>Calendar days\<close>

type_synonym date = "int \<times> int \<times> int"

datatype error = ParseError | DuplicateLabels | NonFinite | ZeroDivisionError

definition is_leap :: "int \<Rightarrow> bool" where
  "is_leap y \<longleftrightarrow> y mod 4 = 0 \<and> (y mod 100 \<noteq> 0 \<or> y mod 400 = 0)"

definition days_in_month :: "int \<Rightarrow> int \<Rightarrow> int" where
  "days_in_month y m =
     (if m = 2 then (if is_leap y then 29 else 28)
      else if m = 4 \<or> m = 6 \<or> m = 9 \<or> m = 11 then 30 else 31)"

definition valid_date :: "date \<Rightarrow> bool" where
  "valid_date dt = (case dt of (y, m, d) \<Rightarrow>
     1 \<le> y \<and> y \<le> 9999 \<and> 1 \<le> m \<and> m \<le> 12 \<and> 1 \<le> d \<and> d \<le> days_in_month y m)"

text \<open>
  The day number of a calendar day (the proleptic Gregorian ordinal, 0001-01-01 being day
  1): the number of days before the year, plus the days before the month, plus the day.
\<close>

definition days_before_year :: "int \<Rightarrow> int" where
  "days_before_year y = (y - 1) * 365 + (y - 1) div 4 - (y - 1) div 100 + (y - 1) div 400"

definition days_before_month :: "int \<Rightarrow> int \<Rightarrow> int" where
  "days_before_month y m = sum_list (map (days_in_month y) [1..m - 1])"

definition ordinal :: "date \<Rightarrow> int" where
  "ordinal dt = (case dt of (y, m, d) \<Rightarrow> days_before_year y + days_before_month y m + d)"

text \<open>
  \<^verbatim>\<open>pd.to_datetime(s)\<close>: the timestamp of a date string. A timestamp at midnight is kept as
  its calendar day; the difference of two timestamps in days, \<^verbatim>\<open>(b - a).days\<close>, is the
  difference of the day numbers.
\<close>

definition to_datetime :: "date \<Rightarrow> error + date" where
  "to_datetime dt = (if valid_date dt then Inr dt else Inl ParseError)"

definition timedelta_days :: "date \<Rightarrow> date \<Rightarrow> int" where
  "timedelta_days b a = ordinal b - ordinal a"

subsection \<open>Frequency selection\<close>

text \<open>\<^verbatim>\<open>int(x)\<close> on a float: truncation towards zero.\<close>

definition py_int :: "rat \<Rightarrow> int" where
  "py_int x = (if 0 \<le> x then \<lfloor>x\<rfloor> else \<lceil>x\<rceil>)"

text \<open>
  \<^verbatim>\<open>calculate_optimal_frequency(start_date, end_date, max_samples)\<close>. The value
  \<^verbatim>\<open>estimated_months\<close> of the source is computed and never read.
\<close>

definition calculate_optimal_frequency :: "date \<Rightarrow> date \<Rightarrow> int \<Rightarrow> error + string" where
  "calculate_optimal_frequency start_date end_date max_samples =
     (case to_datetime start_date of
        Inl e \<Rightarrow> Inl e
      | Inr start \<Rightarrow>
          (case to_datetime end_date of
             Inl e \<Rightarrow> Inl e
           | Inr end' \<Rightarrow>
               (let days_diff = timedelta_days end' start;
                    estimated_trading_days = py_int (of_int (days_diff * 252) / 365);
                    estimated_weeks = (of_int estimated_trading_days / 5 :: rat)
                in if estimated_trading_days \<le> max_samples then Inr ''daily''
                   else if estimated_weeks \<le> of_int max_samples then Inr ''weekly''
                   else Inr ''monthly'')))"

text \<open>
  The selector as the specification words it, on the number of calendar days between the
  two dates: the estimate is a floor, and the three branches follow.
\<close>

definition select_frequency :: "int \<Rightarrow> int \<Rightarrow> string" where
  "select_frequency days max_samples =
     (let estimated_trading_days = \<lfloor>(of_int days * 252 / 365 :: rat)\<rfloor>
      in if estimated_trading_days \<le> max_samples then ''daily''
         else if (of_int estimated_trading_days / 5 :: rat) \<le> of_int max_samples then ''weekly''
         else ''monthly'')"

subsection \<open>Price points and rounding\<close>

type_synonym symbol = string

text \<open>
  A price point is the dict \<^verbatim>\<open>{'date': ..., <symbol>: <number>, ...}\<close>: its date, and its
  other entries in insertion order. The key \<^verbatim>\<open>'date'\<close> is the field \<open>pdate\<close>; no symbol
  is called \<^verbatim>\<open>'date'\<close>.
\<close>

record price_point =
  pdate :: date
  vals :: "(symbol \<times> rat) list"

text \<open>\<^verbatim>\<open>round(x, 2)\<close>: to the nearest multiple of 1/100, a tie to the even one.\<close>

definition round_half_even :: "rat \<Rightarrow> int" where
  "round_half_even x =
     (let f = \<lfloor>x\<rfloor>; r = x - of_int f
      in if r < 1 / 2 then f else if 1 / 2 < r then f + 1 else if even f then f else f + 1)"

definition round2 :: "rat \<Rightarrow> rat" where
  "round2 x = of_int (round_half_even (x * 100)) / 100"

text \<open>
  The loop that both \<^verbatim>\<open>resample_data\<close> and \<^verbatim>\<open>fetch_equity_data\<close> run over one row of a
  frame: \<^verbatim>\<open>for col in cols: if pd.notna(row[col]): entry[col] = round(row[col], 2)\<close>.
\<close>

definition row_entry :: "symbol list \<Rightarrow> (symbol \<Rightarrow> rat option) \<Rightarrow> (symbol \<times> rat) list" where
  "row_entry cols row =
     foldl (\<lambda>entry col. case row col of
                            None \<Rightarrow> entry
                          | Some v \<Rightarrow> AList.update col (round2 v) entry) [] cols"

text \<open>
  \<^verbatim>\<open>for date, row in frame.iterrows(): ...; if len(entry) > 1: result.append(entry)\<close>, the
  entry holding the formatted date besides the values.
\<close>

fun to_records :: "symbol list \<Rightarrow> (date \<times> (symbol \<Rightarrow> rat option)) list \<Rightarrow> price_point list" where
  "to_records cols [] = []"
| "to_records cols (r # rs) =
     (let entry = row_entry cols (snd r)
      in if entry \<noteq> [] then \<lparr>pdate = fst r, vals = entry\<rparr> # to_records cols rs
         else to_records cols rs)"

subsection \<open>Resampling\<close>

text \<open>
  A frame indexed by date: its column labels, and its rows, each with the index label and
  the cells of the row by column (\<open>None\<close> is NaN).
\<close>

record data_frame =
  columns :: "symbol list"
  rows :: "(date \<times> (symbol \<Rightarrow> rat option)) list"

text \<open>
  \<^verbatim>\<open>pd.DataFrame(data)\<close> followed by \<^verbatim>\<open>set_index('date')\<close>: the columns are the keys of the
  dicts in the order of their first appearance, and a key that a dict lacks is NaN in
  its row.
\<close>

definition DataFrame :: "price_point list \<Rightarrow> data_frame" where
  "DataFrame data =
     \<lparr>columns = rev (remdups (rev (concat (map (\<lambda>p. map fst (vals p)) data)))),
      rows = map (\<lambda>p. (pdate p, map_of (vals p))) data\<rparr>"

text \<open>\<^verbatim>\<open>df['date'] = pd.to_datetime(df['date'])\<close>: every date of the column is parsed.\<close>

definition parse_index :: "data_frame \<Rightarrow> error + data_frame" where
  "parse_index df =
     (if list_all (\<lambda>r. valid_date (fst r)) (rows df) then Inr df else Inl ParseError)"

text \<open>
  The period ends of pandas. \<^verbatim>\<open>'W'\<close> is the week that ends on Sunday and \<^verbatim>\<open>'M'\<close> the
  calendar month; \<^verbatim>\<open>resample\<close> closes their bins on the right and labels them by the right
  edge, so the bin of a day is the first Sunday, or the last day of the month, that is
  not before it. \<open>weekday\<close> is 0 on Monday and 6 on Sunday.
\<close>

definition weekday :: "date \<Rightarrow> int" where
  "weekday dt = (ordinal dt + 6) mod 7"

definition plus_days :: "date \<Rightarrow> int \<Rightarrow> date" where
  "plus_days dt k = (case dt of (y, m, d) \<Rightarrow>
     if d + k \<le> days_in_month y m then (y, m, d + k)
     else if m < 12 then (y, m + 1, d + k - days_in_month y m)
     else (y + 1, 1, d + k - days_in_month y m))"

definition week_end :: "date \<Rightarrow> date" where
  "week_end dt = plus_days dt (6 - weekday dt)"

definition month_end :: "date \<Rightarrow> date" where
  "month_end dt = (case dt of (y, m, d) \<Rightarrow> (y, m, days_in_month y m))"

text \<open>
  \<^verbatim>\<open>GroupBy.last\<close> on one column of one bin: the last entry that is not NaN (pandas skips
  missing entries; the last row as it stands would be \<^verbatim>\<open>nth(-1)\<close>).
\<close>

definition last_valid :: "rat option list \<Rightarrow> rat option" where
  "last_valid xs = foldl (\<lambda>acc v. case v of None \<Rightarrow> acc | Some x \<Rightarrow> Some x) None xs"

text \<open>
  \<^verbatim>\<open>df.resample(rule).last()\<close>: the rows are put in the order of their dates (a stable
  sort), each falls in the bin of its period end, and every column of a bin is reduced by
  \<open>last_valid\<close>. The result has one row per bin, in ascending order of the labels. pandas
  also lays out the bins that hold no row, all NaN; \<^verbatim>\<open>dropna(how='all')\<close> removes them on
  the next line of the source, and they are not generated here.
\<close>

definition resample_last :: "(date \<Rightarrow> date) \<Rightarrow> data_frame \<Rightarrow> data_frame" where
  "resample_last period df =
     (let sorted_rows = sort_key fst (rows df);
          labels = sort (remdups (map (\<lambda>r. period (fst r)) sorted_rows))
      in \<lparr>columns = columns df,
          rows = map (\<lambda>l. (l, \<lambda>col. last_valid
                    (map (\<lambda>r. snd r col) (filter (\<lambda>r. period (fst r) = l) sorted_rows))))
                   labels\<rparr>)"

text \<open>\<^verbatim>\<open>dropna(how='all')\<close>: a row is dropped when every column of it is NaN.\<close>

definition dropna_all :: "data_frame \<Rightarrow> data_frame" where
  "dropna_all df =
     \<lparr>columns = columns df,
      rows = filter (\<lambda>r. list_ex (\<lambda>col. snd r col \<noteq> None) (columns df)) (rows df)\<rparr>"

text \<open>
  \<^verbatim>\<open>resample_data(data, frequency)\<close>. The frame is built and its dates parsed before the
  frequency is looked at, as in the source; the test \<^verbatim>\<open>col != 'date'\<close> of the source is
  always true, the date column being the index.
\<close>

definition resample_data :: "price_point list \<Rightarrow> string \<Rightarrow> error + price_point list" where
  "resample_data data frequency =
     (if frequency = ''daily'' then Inr data
      else if data = [] then Inr data
      else (case parse_index (DataFrame data) of
              Inl e \<Rightarrow> Inl e
            | Inr df \<Rightarrow>
                if frequency = ''weekly''
                then (let resampled = dropna_all (resample_last week_end df)
                      in Inr (to_records (columns resampled) (rows resampled)))
                else if frequency = ''monthly''
                then (let resampled = dropna_all (resample_last month_end df)
                      in Inr (to_records (columns resampled) (rows resampled)))
                else Inr data))"

subsection \<open>Retrieval and normalisation\<close>

text \<open>
  A pandas Series is its index with its values. The closing prices \<^verbatim>\<open>data['Close']\<close> are
  the columns of the download by symbol; a symbol without a column has no data.
\<close>

type_synonym 'a series = "(date \<times> 'a) list"

type_synonym closes = "(symbol \<times> rat option series) list"

text \<open>\<^verbatim>\<open>Series.dropna()\<close>.\<close>

definition dropna :: "rat option series \<Rightarrow> rat series" where
  "dropna s = concat (map (\<lambda>(d, v). case v of None \<Rightarrow> [] | Some x \<Rightarrow> [(d, x)]) s)"

text \<open>
  The frame \<^verbatim>\<open>normalized\<close>, by rows: the index label of each row and its cells by column
  (a cell may be NaN). The empty frame has neither rows nor columns.
\<close>

type_synonym norm_frame = "(date \<times> (symbol \<times> rat option) list) list"

text \<open>
  \<^verbatim>\<open>normalized[symbol] = s\<close>. A frame without an index takes the index of the first series
  it is given. After that pandas conforms every series to the index the frame has: a
  date of the index that the series lacks becomes NaN, and a date of the series that is
  not in the index is dropped. A series whose index is the frame's is stored as it is; any
  other series with a repeated date cannot be conformed, and pandas raises.
\<close>

definition setitem :: "symbol \<Rightarrow> rat series \<Rightarrow> norm_frame \<Rightarrow> error + norm_frame" where
  "setitem symbol s frame =
     (if frame = [] then Inr (map (\<lambda>(d, v). (d, [(symbol, Some v)])) s)
      else if map fst s = map fst frame
      then Inr (map (\<lambda>((d, cells), (d', v)). (d, AList.update symbol (Some v) cells)) (zip frame s))
      else if \<not> distinct (map fst s) then Inl DuplicateLabels
      else Inr (map (\<lambda>(d, cells). (d, AList.update symbol (map_of s d) cells)) frame))"

text \<open>
  The loop \<^verbatim>\<open>for symbol in symbols\<close> that fills \<^verbatim>\<open>normalized\<close>. A first price of zero makes
  the float division of the source yield infinities and NaN without raising; the rationals
  do not have them, and \<open>NonFinite\<close> marks the inputs that the model does not cover.
  The division is exact here and a double division in the source. The statements below
  evaluate the loop on inputs without a zero price, on which the doubles of the source
  round to the same two decimals.
\<close>

fun normalize :: "closes \<Rightarrow> symbol list \<Rightarrow> norm_frame \<Rightarrow> error + norm_frame" where
  "normalize close_prices [] normalized = Inr normalized"
| "normalize close_prices (symbol # symbols) normalized =
     (case map_of close_prices symbol of
        None \<Rightarrow> normalize close_prices symbols normalized
      | Some column \<Rightarrow>
          (case dropna column of
             [] \<Rightarrow> normalize close_prices symbols normalized
           | (d0, start_price) # rest \<Rightarrow>
               if start_price = 0 then Inl NonFinite
               else (case setitem symbol
                            (map (\<lambda>(d, v). (d, v / start_price * 100))
                               ((d0, start_price) # rest))
                            normalized of
                       Inl e \<Rightarrow> Inl e
                     | Inr normalized' \<Rightarrow> normalize close_prices symbols normalized')))"

text \<open>\<^verbatim>\<open>row[symbol]\<close> for a symbol that is a column of the row and not NaN there.\<close>

definition cell :: "(symbol \<times> rat option) list \<Rightarrow> symbol \<Rightarrow> rat option" where
  "cell cells symbol = (case map_of cells symbol of Some (Some v) \<Rightarrow> Some v | _ \<Rightarrow> None)"

text \<open>
  \<^verbatim>\<open>fetch_equity_data(symbols, start_date, end_date, frequency)\<close>, with the closing prices
  that \<^verbatim>\<open>yf.download\<close> returned for the symbols and the two dates in place of the call.
\<close>

definition fetch_equity_data :: "symbol list \<Rightarrow> closes \<Rightarrow> string \<Rightarrow> error + price_point list" where
  "fetch_equity_data symbols close_prices frequency =
     (case normalize close_prices symbols [] of
        Inl e \<Rightarrow> Inl e
      | Inr normalized \<Rightarrow>
          resample_data
            (to_records symbols (map (\<lambda>(d, cells). (d, cell cells)) normalized)) frequency)"

subsection \<open>The composite\<close>

text \<open>
  The inner loop of \<^verbatim>\<open>calculate_composite\<close> over \<^verbatim>\<open>weights.items()\<close>, on the entries of one
  point. The sum is exact here, where the source adds and multiplies doubles: the rounded
  value of the source can differ from the rounded exact sum when the exact sum lies half
  way between two multiples of 1/100 (for 100.0 and 100.29 with equal weights the source
  stores 100.15, and the exact sum 100.145 rounds to 100.14). No statement below depends on
  the value of a sum with a term: they use the loop only where the weights sum to zero and
  where no weighted symbol is present.
\<close>

definition composite_of :: "(symbol \<times> rat) list \<Rightarrow> rat \<Rightarrow> (symbol \<times> rat) list \<Rightarrow> rat" where
  "composite_of weights total_weight point =
     foldl (\<lambda>composite (symbol, weight).
              case map_of point symbol of
                None \<Rightarrow> composite
              | Some p \<Rightarrow> composite + p * (weight / total_weight)) 0 weights"

text \<open>\<^verbatim>\<open>calculate_composite(data, weights)\<close>.\<close>

definition calculate_composite :: "price_point list \<Rightarrow> (symbol \<times> rat) list \<Rightarrow> price_point list" where
  "calculate_composite data weights =
     (let total_weight = sum_list (map snd weights)
      in if total_weight = 0 then data
         else map (\<lambda>point. point\<lparr>vals :=
                     AList.update ''Composite''
                       (round2 (composite_of weights total_weight (vals point))) (vals point)\<rparr>)
                data)"

subsection \<open>The run\<close>

text \<open>
  The parsed command line, what a run prints, and the JSON object it writes. Only the
  lines of \<^verbatim>\<open>main\<close> that tell the outcomes apart are kept as messages.
\<close>

record args =
  arg_symbols :: "symbol list"
  arg_start :: date
  arg_end :: date
  arg_frequency :: "string option"
  arg_weights :: "rat list option"
  arg_output :: string

datatype message =
    AutoSelected string
  | UsingSpecified string
  | NoDataRetrieved
  | WeightCountWarning nat nat
  | DataSaved string nat

record document =
  doc_symbols :: "symbol list"
  doc_weights :: "(symbol \<times> rat) list"
  doc_start_date :: date
  doc_end_date :: date
  doc_data :: "price_point list"

record outcome =
  printed :: "message list"
  written :: "(string \<times> document) option"

text \<open>\<^verbatim>\<open>{s: 100/len(symbols) for s in symbols}\<close> and \<^verbatim>\<open>dict(zip(symbols, weights))\<close>.\<close>

definition equal_weights :: "symbol list \<Rightarrow> error + (symbol \<times> rat) list" where
  "equal_weights symbols =
     (if symbols = [] then Inl ZeroDivisionError
      else Inr (foldl (\<lambda>d s. AList.update s (100 / of_nat (length symbols)) d) [] symbols))"

definition dict_zip :: "symbol list \<Rightarrow> rat list \<Rightarrow> (symbol \<times> rat) list" where
  "dict_zip symbols ws = foldl (\<lambda>d (s, w). AList.update s w d) [] (zip symbols ws)"

definition choose_weights :: "args \<Rightarrow> error + (message list \<times> (symbol \<times> rat) list)" where
  "choose_weights a =
     (case arg_weights a of
        Some (w # ws) \<Rightarrow>
          if length (w # ws) \<noteq> length (arg_symbols a)
          then (case equal_weights (arg_symbols a) of
                  Inl e \<Rightarrow> Inl e
                | Inr weights \<Rightarrow>
                    Inr ([WeightCountWarning (length (w # ws)) (length (arg_symbols a))], weights))
          else Inr ([], dict_zip (arg_symbols a) (w # ws))
      | _ \<Rightarrow> (case equal_weights (arg_symbols a) of
                Inl e \<Rightarrow> Inl e
              | Inr weights \<Rightarrow> Inr ([], weights)))"

text \<open>
  The frequency of the run: the one given on the command line, or the one that
  \<^verbatim>\<open>calculate_optimal_frequency\<close> selects with \<^verbatim>\<open>max_samples=100\<close>.
\<close>

definition run_frequency :: "args \<Rightarrow> error + (string \<times> message list)" where
  "run_frequency a =
     (case arg_frequency a of
        None \<Rightarrow> (case calculate_optimal_frequency (arg_start a) (arg_end a) 100 of
                   Inl e \<Rightarrow> Inl e
                 | Inr f \<Rightarrow> Inr (f, [AutoSelected f]))
      | Some f \<Rightarrow> Inr (f, [UsingSpecified f]))"

text \<open>
  \<^verbatim>\<open>main()\<close>, after \<^verbatim>\<open>parse_args\<close>: the frequency, the fetch, the early return on an empty
  result, the weights, the composite and the file.
\<close>

definition main :: "args \<Rightarrow> closes \<Rightarrow> error + outcome" where
  "main a close_prices =
     (case run_frequency a of
        Inl e \<Rightarrow> Inl e
      | Inr (frequency, out1) \<Rightarrow>
          (case fetch_equity_data (arg_symbols a) close_prices frequency of
             Inl e \<Rightarrow> Inl e
           | Inr data \<Rightarrow>
               if data = [] then Inr \<lparr>printed = out1 @ [NoDataRetrieved], written = None\<rparr>
               else (case choose_weights a of
                       Inl e \<Rightarrow> Inl e
                     | Inr (out2, weights) \<Rightarrow>
                         (let data' = calculate_composite data weights
                          in Inr \<lparr>printed = out1 @ out2 @ [DataSaved (arg_output a) (length data')],
                                  written = Some (arg_output a,
                                    \<lparr>doc_symbols = arg_symbols a, doc_weights = weights,
                                     doc_start_date = arg_start a, doc_end_date = arg_end a,
                                     doc_data = data'\<rparr>)\<rparr>))))"

subsection \<open>The buckets of a series\<close>

text \<open>
  The statements about resampling speak of the buckets of a series. The period end of a
  frequency; the points of a series whose date falls in the period that ends on \<open>l\<close>, in
  the order of their dates; the value of a symbol in the last point of a list that has
  one; the period ends of a series in ascending order, and those whose bucket has a value
  for some column; the last day of a month.
\<close>

definition period_end :: "string \<Rightarrow> date \<Rightarrow> date" where
  "period_end frequency = (if frequency = ''weekly'' then week_end else month_end)"

definition bucket :: "(date \<Rightarrow> date) \<Rightarrow> price_point list \<Rightarrow> date \<Rightarrow> price_point list" where
  "bucket period data l = filter (\<lambda>p. period (pdate p) = l) (sort_key pdate data)"

definition carried :: "symbol \<Rightarrow> price_point list \<Rightarrow> rat option" where
  "carried s ps =
     (case filter (\<lambda>p. map_of (vals p) s \<noteq> None) ps of
        [] \<Rightarrow> None
      | q # qs \<Rightarrow> map_of (vals (last (q # qs))) s)"

definition labels :: "(date \<Rightarrow> date) \<Rightarrow> price_point list \<Rightarrow> date list" where
  "labels period data = sort (remdups (map (\<lambda>p. period (pdate p)) (sort_key pdate data)))"

definition has_data :: "(date \<Rightarrow> date) \<Rightarrow> price_point list \<Rightarrow> date \<Rightarrow> bool" where
  "has_data period data l =
     list_ex (\<lambda>c. carried c (bucket period data l) \<noteq> None) (columns (DataFrame data))"

definition is_month_end :: "date \<Rightarrow> bool" where
  "is_month_end dt = (case dt of (y, m, d) \<Rightarrow> d = days_in_month y m)"

section \<open>Properties\<close>

subsection \<open>The day number is strictly monotone on calendar days\<close>

lemma div_step: "0 < k \<Longrightarrow> (y::int) div k = (y - 1) div k + (if y mod k = 0 then 1 else 0)"
proof -
  assume k: "0 < k"
  define q where "q = (y - 1) div k"
  define r where "r = (y - 1) mod k"
  have y: "y = q * k + (r + 1)" and r: "0 \<le> r" "r < k"
    using k by (simp_all add: q_def r_def)
  have "y div k = q + (if y mod k = 0 then 1 else 0)"
  proof (cases "r + 1 = k")
    case True
    then have yk: "y = (q + 1) * k" using y by (simp add: algebra_simps)
    have "y div k = q + 1" "y mod k = 0" using k by (simp_all add: yk)
    then show ?thesis by simp
  next
    case False
    then have lt: "r + 1 < k" using r by simp
    have "y div k = q" using r lt k
      by (subst y) (simp add: div_pos_pos_trivial)
    moreover have "y mod k = r + 1" using r lt k
      by (subst y) (simp add: mod_pos_pos_trivial)
    ultimately show ?thesis using r by simp
  qed
  then show ?thesis by (simp only: q_def)
qed

lemma leap_arith:
  fixes y A B C :: int
  assumes "r \<longrightarrow> q" "q \<longrightarrow> p"
  shows "y * 365 + (A + (if p then 1 else 0)) - (B + (if q then 1 else 0)) + (C + (if r then 1 else 0))
       = (y - 1) * 365 + A - B + C + (if p \<and> (\<not> q \<or> r) then 366 else 365)"
  using assms by (cases p; cases q; cases r; simp add: algebra_simps)

lemma days_before_year_step:
  "days_before_year (y + 1) = days_before_year y + (if is_leap y then 366 else 365)"
proof -
  have a: "y div 4 = (y - 1) div 4 + (if y mod 4 = 0 then 1 else 0)" by (rule div_step) simp
  have b: "y div 100 = (y - 1) div 100 + (if y mod 100 = 0 then 1 else 0)" by (rule div_step) simp
  have c: "y div 400 = (y - 1) div 400 + (if y mod 400 = 0 then 1 else 0)" by (rule div_step) simp
  have d: "y mod 400 = 0 \<longrightarrow> y mod 100 = 0"
    using dvd_trans [of 100 400 y] by (simp add: mod_eq_0_iff_dvd)
  have e: "y mod 100 = 0 \<longrightarrow> y mod 4 = 0"
    using dvd_trans [of 4 100 y] by (simp add: mod_eq_0_iff_dvd)
  have s: "y + 1 - 1 = y" by simp
  have "days_before_year (y + 1) = y * 365 + y div 4 - y div 100 + y div 400"
    unfolding days_before_year_def s ..
  also have "\<dots> = y * 365 + ((y - 1) div 4 + (if y mod 4 = 0 then 1 else 0))
      - ((y - 1) div 100 + (if y mod 100 = 0 then 1 else 0))
      + ((y - 1) div 400 + (if y mod 400 = 0 then 1 else 0))"
    using a b c by (simp only:)
  also have "\<dots> = (y - 1) * 365 + (y - 1) div 4 - (y - 1) div 100 + (y - 1) div 400
      + (if y mod 4 = 0 \<and> (\<not> y mod 100 = 0 \<or> y mod 400 = 0) then 366 else 365)"
    by (rule leap_arith [OF d e])
  finally show ?thesis
    unfolding days_before_year_def is_leap_def .
qed


lemma days_before_year_mono: "y \<le> y' \<Longrightarrow> days_before_year y \<le> days_before_year y'"
proof (induction y' rule: int_ge_induct)
  case base
  show ?case by simp
next
  case (step i)
  then show ?case by (simp add: days_before_year_step)
qed

lemma days_in_month_pos: "28 \<le> days_in_month y m"
  by (simp add: days_in_month_def)

lemma days_before_month_step:
  "1 \<le> m \<Longrightarrow> days_before_month y (m + 1) = days_before_month y m + days_in_month y m"
  by (simp add: days_before_month_def upto_rec2)

lemma days_before_month_mono:
  "m \<le> m' \<Longrightarrow> 1 \<le> m \<Longrightarrow> days_before_month y m \<le> days_before_month y m'"
proof (induction m' rule: int_ge_induct)
  case base
  show ?case by simp
next
  case (step i)
  have "0 \<le> days_in_month y i" using days_in_month_pos [of y i] by simp
  with step show ?case by (simp add: days_before_month_step)
qed

lemma days_before_month_1: "days_before_month y 1 = 0"
  by (simp add: days_before_month_def)

lemma days_before_month_13:
  "days_before_month y 13 = (if is_leap y then 366 else 365)"
  by (simp add: days_before_month_def days_in_month_def upto.simps)

lemma ordinal_upper:
  assumes "valid_date (y, m, d)"
  shows "ordinal (y, m, d) \<le> days_before_year (y + 1)"
proof -
  from assms have m: "1 \<le> m" "m + 1 \<le> 13" and d: "d \<le> days_in_month y m"
    by (simp_all add: valid_date_def)
  have "ordinal (y, m, d) \<le> days_before_year y + days_before_month y (m + 1)"
    using d m by (simp add: ordinal_def days_before_month_step)
  also have "\<dots> \<le> days_before_year y + days_before_month y 13"
    using days_before_month_mono [of "m + 1" 13 y] m by simp
  also have "\<dots> = days_before_year (y + 1)"
    by (simp add: days_before_month_13 days_before_year_step)
  finally show ?thesis .
qed

lemma ordinal_lower:
  assumes "valid_date (y, m, d)"
  shows "days_before_year y < ordinal (y, m, d)"
proof -
  from assms have m: "1 \<le> m" and d: "1 \<le> d" by (simp_all add: valid_date_def)
  have "0 \<le> days_before_month y m"
    using days_before_month_mono [of 1 m y] m by (simp add: days_before_month_1)
  then show ?thesis using d by (simp add: ordinal_def)
qed

lemma ordinal_strict_mono:
  assumes "valid_date a" "valid_date b" "a < b"
  shows "ordinal a < ordinal b"
proof -
  obtain y m d where a: "a = (y, m, d)" by (cases a)
  obtain y' m' d' where b: "b = (y', m', d')" by (cases b)
  from assms(3) have "y < y' \<or> (y = y' \<and> m < m') \<or> (y = y' \<and> m = m' \<and> d < d')"
    by (auto simp: a b)
  then consider "y < y'" | "y = y'" "m < m'" | "y = y'" "m = m'" "d < d'"
    by blast
  then show ?thesis
  proof cases
    case 1
    have "ordinal a \<le> days_before_year (y + 1)"
      using ordinal_upper assms(1) by (simp add: a)
    also have "\<dots> \<le> days_before_year y'"
      using 1 by (intro days_before_year_mono) simp
    also have "\<dots> < ordinal b"
      using ordinal_lower assms(2) by (simp add: b)
    finally show ?thesis .
  next
    case 2
    from assms(1,2) have v: "1 \<le> m" "d \<le> days_in_month y m" "1 \<le> d'"
      by (simp_all add: valid_date_def a b)
    have "days_before_month y m + d \<le> days_before_month y (m + 1)"
      using v by (simp add: days_before_month_step)
    also have "\<dots> \<le> days_before_month y m'"
      using 2 v by (intro days_before_month_mono) simp_all
    finally show ?thesis using v 2 by (simp add: ordinal_def a b)
  next
    case 3
    then show ?thesis by (simp add: ordinal_def a b)
  qed
qed


text \<open>
  The period end of a week is a Sunday, on the day itself or within the six days after
  it.
\<close>

lemma ordinal_plus_days:
  assumes "valid_date (y, m, d)" "0 \<le> k" "k \<le> 27"
  shows "ordinal (plus_days (y, m, d) k) = ordinal (y, m, d) + k"
proof -
  from assms(1) have m: "1 \<le> m" "m \<le> 12" by (simp_all add: valid_date_def)
  consider "d + k \<le> days_in_month y m" | "\<not> d + k \<le> days_in_month y m" "m < 12"
    | "\<not> d + k \<le> days_in_month y m" "m = 12"
    using m by linarith
  then show ?thesis
  proof cases
    case 1
    then show ?thesis by (simp add: plus_days_def ordinal_def)
  next
    case 2
    then show ?thesis
      using m by (simp add: plus_days_def ordinal_def days_before_month_step)
  next
    case 3
    have "days_before_month y 13 = days_before_month y 12 + days_in_month y 12"
      using days_before_month_step [of 12 y] by simp
    then have "days_before_year (y + 1) = days_before_year y + days_before_month y 12 + days_in_month y 12"
      by (simp add: days_before_year_step days_before_month_13)
    then show ?thesis
      using 3 by (simp add: plus_days_def ordinal_def days_before_month_1)
  qed
qed

lemma week_end_is_sunday:
  assumes "valid_date dt"
  shows "weekday (week_end dt) = 6 \<and> ordinal dt \<le> ordinal (week_end dt)
       \<and> ordinal (week_end dt) \<le> ordinal dt + 6"
proof -
  obtain y m d where dt: "dt = (y, m, d)" by (cases dt)
  let ?k = "6 - weekday dt"
  have k: "0 \<le> ?k" "?k \<le> 6" by (simp_all add: weekday_def)
  have o: "ordinal (week_end dt) = ordinal dt + ?k"
    using ordinal_plus_days [of y m d ?k] assms k by (simp add: week_end_def dt)
  have "weekday (week_end dt) = (ordinal dt + 6 + (6 - (ordinal dt + 6) mod 7)) mod 7"
    by (simp add: weekday_def [of "week_end dt"] o) (simp add: weekday_def algebra_simps)
  also have "\<dots> = 6" by presburger
  finally show ?thesis using o k by simp
qed

lemma weekday_example: "weekday (2025, 1, 6) = 0" "weekday (2025, 1, 12) = 6"
  by (simp_all add: weekday_def ordinal_def days_before_year_def days_before_month_def
      days_in_month_def is_leap_def upto.simps)

subsection \<open>Frequency selection\<close>

lemma py_int_nonneg: "0 \<le> x \<Longrightarrow> py_int x = \<lfloor>x\<rfloor>"
  by (simp add: py_int_def)

lemma py_int_neg: "x < 0 \<Longrightarrow> py_int x \<le> 0 \<and> \<lfloor>x\<rfloor> \<le> 0"
  by (simp add: py_int_def ceiling_le_iff floor_le_iff)

lemma estimate_branches:
  fixes x :: rat
  assumes "0 \<le> mx"
  shows "(let e = py_int x in
            if e \<le> mx then ''daily''
            else if (of_int e / 5 :: rat) \<le> of_int mx then ''weekly'' else ''monthly'')
       = (let e = \<lfloor>x\<rfloor> in
            if e \<le> mx then ''daily''
            else if (of_int e / 5 :: rat) \<le> of_int mx then ''weekly'' else ''monthly'')"
proof (cases "0 \<le> x")
  case True
  then show ?thesis by (simp add: py_int_nonneg)
next
  case False
  then have "x < 0" by simp
  from py_int_neg [OF this] have "py_int x \<le> 0" "\<lfloor>x\<rfloor> \<le> 0" by blast+
  then have "py_int x \<le> mx" "\<lfloor>x\<rfloor> \<le> mx" using assms by linarith+
  then show ?thesis by (simp add: Let_def)
qed

lemma calculate_optimal_frequency_valid:
  assumes "valid_date s" "valid_date e" "0 \<le> mx"
  shows "calculate_optimal_frequency s e mx = Inr (select_frequency (ordinal e - ordinal s) mx)"
proof -
  have "calculate_optimal_frequency s e mx =
      Inr (let est = py_int (of_int ((ordinal e - ordinal s) * 252) / 365) in
            if est \<le> mx then ''daily''
            else if (of_int est / 5 :: rat) \<le> of_int mx then ''weekly'' else ''monthly'')"
    using assms(1,2) by (simp add: calculate_optimal_frequency_def to_datetime_def timedelta_days_def Let_def)
  also have "\<dots> = Inr (select_frequency (ordinal e - ordinal s) mx)"
    unfolding select_frequency_def
    using estimate_branches [OF assms(3), of "of_int ((ordinal e - ordinal s) * 252) / 365"]
    by simp
  finally show ?thesis .
qed

text \<open>
  Claim C4. For every pair of dates and \<open>max_samples = 100\<close> the selector answers as the
  specification words it: with the estimate \<open>floor (days * 252 / 365)\<close> of the trading
  days, \<open>daily\<close> when the estimate is at most 100, else \<open>weekly\<close> when a fifth of it is at
  most 100, else \<open>monthly\<close>. The source truncates the estimate towards zero where the
  specification takes the floor; the two differ on negative day counts only, where both
  are at most zero and the answer is \<open>daily\<close>. The range 2025-01-01 to 2025-01-31 gives
  \<open>daily\<close>, the range 2015-01-01 to 2025-01-01 gives \<open>monthly\<close>.
\<close>

theorem C4_select_frequency:
  "(valid_date s \<and> valid_date e \<longrightarrow>
      calculate_optimal_frequency s e 100 = Inr (select_frequency (timedelta_days e s) 100))
   \<and> calculate_optimal_frequency (2025, 1, 1) (2025, 1, 31) 100 = Inr ''daily''
   \<and> calculate_optimal_frequency (2015, 1, 1) (2025, 1, 1) 100 = Inr ''monthly''"
proof (intro conjI impI)
  assume "valid_date s \<and> valid_date e"
  then show "calculate_optimal_frequency s e 100 = Inr (select_frequency (timedelta_days e s) 100)"
    by (simp add: calculate_optimal_frequency_valid timedelta_days_def)
next
  show "calculate_optimal_frequency (2025, 1, 1) (2025, 1, 31) 100 = Inr ''daily''"
    by (simp add: calculate_optimal_frequency_def to_datetime_def valid_date_def
        days_in_month_def is_leap_def ordinal_def days_before_year_def days_before_month_def
        timedelta_days_def py_int_def Let_def upto.simps)
next
  show "calculate_optimal_frequency (2015, 1, 1) (2025, 1, 1) 100 = Inr ''monthly''"
    by (simp add: calculate_optimal_frequency_def to_datetime_def valid_date_def
        days_in_month_def is_leap_def ordinal_def days_before_year_def days_before_month_def
        timedelta_days_def py_int_def Let_def upto.simps)
qed

theorem C4_select_frequency_witness:
  "valid_date (2024, 2, 1) \<and> valid_date (2024, 12, 31)
   \<and> timedelta_days (2024, 12, 31) (2024, 2, 1) = 334
   \<and> select_frequency 334 100 = ''weekly''
   \<and> calculate_optimal_frequency (2024, 2, 1) (2024, 12, 31) 100 = Inr ''weekly''"
proof -
  have v: "valid_date (2024, 2, 1) \<and> valid_date (2024, 12, 31)"
    by (simp add: valid_date_def days_in_month_def is_leap_def)
  have d: "timedelta_days (2024, 12, 31) (2024, 2, 1) = 334"
    by (simp add: timedelta_days_def ordinal_def days_before_year_def days_before_month_def days_in_month_def
        is_leap_def upto.simps)
  have f: "select_frequency 334 100 = ''weekly''"
    by (simp add: select_frequency_def Let_def)
  from C4_select_frequency [of "(2024, 2, 1)" "(2024, 12, 31)"] v
  have "calculate_optimal_frequency (2024, 2, 1) (2024, 12, 31) 100 = Inr ''weekly''"
    by (simp only: d f)
  with v d f show ?thesis by simp
qed

text \<open>
  Claim C8. When the end date is before the start date (and \<open>max_samples = 100\<close>), the
  selector returns \<open>daily\<close>, and it returns: no error is raised.
\<close>

theorem C8_reversed_range_is_daily:
  assumes "valid_date start_date" "valid_date end_date" "end_date < start_date"
  shows "calculate_optimal_frequency start_date end_date 100 = Inr ''daily''"
proof -
  have "ordinal end_date - ordinal start_date < 0"
    using ordinal_strict_mono [OF assms(2,1,3)] by simp
  then have neg: "(of_int ((ordinal end_date - ordinal start_date) * 252) / 365 :: rat) < 0"
    by (simp add: divide_less_0_iff mult_less_0_iff)
  have "py_int (of_int ((ordinal end_date - ordinal start_date) * 252) / 365) \<le> 100"
    using py_int_neg [OF neg] by simp
  then show ?thesis
    using assms(1,2) by (simp add: calculate_optimal_frequency_def to_datetime_def timedelta_days_def Let_def)
qed

theorem C8_reversed_range_is_daily_witness:
  "valid_date (2025, 3, 1) \<and> valid_date (2025, 1, 1) \<and> (2025, 1, 1) < ((2025, 3, 1) :: date)
   \<and> calculate_optimal_frequency (2025, 3, 1) (2025, 1, 1) 100 = Inr ''daily''"
proof -
  have v: "valid_date (2025, 3, 1)" "valid_date (2025, 1, 1)"
    by (simp_all add: valid_date_def days_in_month_def is_leap_def)
  have l: "(2025, 1, 1) < ((2025, 3, 1) :: date)" by simp
  from C8_reversed_range_is_daily [OF v l] v l show ?thesis by simp
qed

subsection \<open>The composite\<close>






text \<open>
  Claim C3. When the weights sum to zero, \<^verbatim>\<open>calculate_composite\<close> returns its input as it
  is: no point gains a \<open>Composite\<close> field and no field changes.
\<close>

theorem C3_zero_total_weight:
  "sum_list (map snd weights) = 0 \<Longrightarrow> calculate_composite data weights = data"
  by (simp add: calculate_composite_def)

theorem C3_zero_total_weight_witness:
  "sum_list (map snd [(''SPY'', 0 :: rat), (''QQQ'', 0)]) = 0
   \<and> calculate_composite [\<lparr>pdate = (2025, 1, 2), vals = [(''SPY'', 100), (''QQQ'', 102)]\<rparr>]
         [(''SPY'', 0), (''QQQ'', 0)]
       = [\<lparr>pdate = (2025, 1, 2), vals = [(''SPY'', 100), (''QQQ'', 102)]\<rparr>]"
proof -
  have z: "sum_list (map snd [(''SPY'', 0 :: rat), (''QQQ'', 0)]) = 0" by simp
  from C3_zero_total_weight [OF z] z show ?thesis by simp
qed



subsection \<open>Resampling\<close>

text \<open>
  Claim C6. Resampling with the frequency \<open>daily\<close> returns the series as it is, and so does
  resampling the empty series with any frequency; hence resampling the result of a daily
  resampling with \<open>daily\<close> again returns the same series.
\<close>

theorem C6_daily_and_empty_identity:
  "resample_data data ''daily'' = Inr data
   \<and> resample_data [] frequency = Inr []
   \<and> (case resample_data data ''daily'' of
         Inl e \<Rightarrow> Inl e
       | Inr out \<Rightarrow> resample_data out ''daily'') = Inr data"
  by (simp add: resample_data_def)

theorem C6_daily_and_empty_identity_witness:
  "resample_data [\<lparr>pdate = (2025, 1, 6), vals = [(''SPY'', 100)]\<rparr>,
                  \<lparr>pdate = (2025, 1, 7), vals = [(''SPY'', 101)]\<rparr>] ''daily''
     = Inr [\<lparr>pdate = (2025, 1, 6), vals = [(''SPY'', 100)]\<rparr>,
            \<lparr>pdate = (2025, 1, 7), vals = [(''SPY'', 101)]\<rparr>]
   \<and> resample_data [] ''weekly'' = Inr []"
  using C6_daily_and_empty_identity
    [of "[\<lparr>pdate = (2025, 1, 6), vals = [(''SPY'', 100)]\<rparr>,
          \<lparr>pdate = (2025, 1, 7), vals = [(''SPY'', 101)]\<rparr>]" "''weekly''"]
  by simp

subsection \<open>Normalisation\<close>

text \<open>
  Claim C5. The first value of a symbol in the fetched series is not always 100. The frame
  \<^verbatim>\<open>normalized\<close> takes its index from the first symbol that has data, and every later
  symbol is conformed to that index. Here NEW has no close on 2025-01-02, so the index
  starts on 2025-01-03; SPY, rebased on its close of 2025-01-02, loses that day, and its
  first value in the result is 120.
\<close>

theorem C5_first_value_not_100:
  "fetch_equity_data [''NEW'', ''SPY'']
     [(''NEW'', [((2025, 1, 2), None), ((2025, 1, 3), Some 10)]),
      (''SPY'', [((2025, 1, 2), Some 50), ((2025, 1, 3), Some 60)])] ''daily''
   = Inr [\<lparr>pdate = (2025, 1, 3), vals = [(''NEW'', 100), (''SPY'', 120)]\<rparr>]"
  by (simp add: fetch_equity_data_def dropna_def setitem_def cell_def row_entry_def
      round2_def round_half_even_def resample_data_def Let_def)

subsection \<open>The run\<close>

text \<open>
  Claim C9. When the series that comes back from retrieval, normalisation and resampling
  is empty, the run prints the "no data" line after the frequency line and returns: no
  file is written, and the composite is not computed.
\<close>

theorem C9_empty_result_no_file:
  assumes "run_frequency a = Inr (frequency, out1)"
    and "fetch_equity_data (arg_symbols a) close_prices frequency = Inr []"
  shows "main a close_prices = Inr \<lparr>printed = out1 @ [NoDataRetrieved], written = None\<rparr>"
  using assms by (simp add: main_def)

theorem C9_empty_result_no_file_witness:
  "run_frequency \<lparr>arg_symbols = [''SPY''], arg_start = (2025, 1, 1), arg_end = (2025, 1, 31),
       arg_frequency = None, arg_weights = None, arg_output = ''stock_data.json''\<rparr>
     = Inr (''daily'', [AutoSelected ''daily''])
   \<and> fetch_equity_data [''SPY''] [(''SPY'', [((2025, 1, 2), None), ((2025, 1, 3), None)])] ''daily'' = Inr []
   \<and> main \<lparr>arg_symbols = [''SPY''], arg_start = (2025, 1, 1), arg_end = (2025, 1, 31),
       arg_frequency = None, arg_weights = None, arg_output = ''stock_data.json''\<rparr>
       [(''SPY'', [((2025, 1, 2), None), ((2025, 1, 3), None)])]
     = Inr \<lparr>printed = [AutoSelected ''daily'', NoDataRetrieved], written = None\<rparr>"
proof -
  let ?a = "\<lparr>arg_symbols = [''SPY''], arg_start = (2025, 1, 1), arg_end = (2025, 1, 31),
       arg_frequency = None, arg_weights = None, arg_output = ''stock_data.json''\<rparr>"
  let ?c = "[(''SPY'', [((2025, 1, 2), None), ((2025, 1, 3), None)])] :: closes"
  have f: "run_frequency ?a = Inr (''daily'', [AutoSelected ''daily''])"
    by (simp add: run_frequency_def calculate_optimal_frequency_def to_datetime_def valid_date_def
        days_in_month_def is_leap_def ordinal_def days_before_year_def days_before_month_def
        timedelta_days_def py_int_def Let_def upto.simps)
  have d: "fetch_equity_data (arg_symbols ?a) ?c ''daily'' = Inr []"
    by (simp add: fetch_equity_data_def dropna_def resample_data_def)
  from C9_empty_result_no_file [OF f d] f d show ?thesis by simp
qed

subsection \<open>The resampled frame, bucket by bucket\<close>

lemma insort_key_map:
  "insort_key f (g x) (map g ys) = map g (insort_key (\<lambda>a. f (g a)) x ys)"
  by (induction ys) simp_all

lemma sort_key_map: "sort_key f (map g xs) = map g (sort_key (\<lambda>a. f (g a)) xs)"
  by (induction xs) (simp_all add: insort_key_map)

lemma last_valid_acc:
  "foldl (\<lambda>acc v. case v of None \<Rightarrow> acc | Some x \<Rightarrow> Some x) a xs =
     (case filter (\<lambda>v. v \<noteq> None) xs of [] \<Rightarrow> a | y # ys \<Rightarrow> last (y # ys))"
proof (induction xs arbitrary: a)
  case Nil
  show ?case by simp
next
  case (Cons x xs)
  show ?case
    by (cases x) (auto simp: Cons.IH split: list.splits)
qed

lemma last_valid_carried:
  "last_valid (map (\<lambda>p. map_of (vals p) s) ps) = carried s ps"
proof -
  let ?qs = "filter (\<lambda>p. map_of (vals p) s \<noteq> None) ps"
  have f: "filter (\<lambda>v. v \<noteq> None) (map (\<lambda>p. map_of (vals p) s) ps) = map (\<lambda>p. map_of (vals p) s) ?qs"
    by (simp add: filter_map comp_def)
  show ?thesis
    unfolding last_valid_def last_valid_acc f carried_def
    by (cases ?qs) (simp_all add: last_map)
qed

lemma row_entry_acc:
  "map_of (foldl (\<lambda>entry col. case row col of None \<Rightarrow> entry
                                | Some v \<Rightarrow> AList.update col (round2 v) entry) acc cols) s =
     (if s \<in> set cols \<and> row s \<noteq> None then map_option round2 (row s) else map_of acc s)"
proof (induction cols arbitrary: acc)
  case Nil
  show ?case by simp
next
  case (Cons c cols)
  show ?case
    by (cases "row c") (auto simp: Cons.IH update_conv')
qed

lemma map_of_row_entry:
  "map_of (row_entry cols row) s = (if s \<in> set cols then map_option round2 (row s) else None)"
  unfolding row_entry_def row_entry_acc by auto

lemma row_entry_Nil_iff: "row_entry cols row = [] \<longleftrightarrow> (\<forall>c \<in> set cols. row c = None)"
proof
  assume e: "row_entry cols row = []"
  show "\<forall>c \<in> set cols. row c = None"
  proof
    fix c assume "c \<in> set cols"
    with map_of_row_entry [of cols row c] e show "row c = None" by simp
  qed
next
  assume "\<forall>c \<in> set cols. row c = None"
  then have h: "\<And>s. map_of (row_entry cols row) s = None"
    by (simp add: map_of_row_entry)
  show "row_entry cols row = []"
  proof (cases "row_entry cols row")
    case Nil
    then show ?thesis .
  next
    case (Cons a t)
    with h [of "fst a"] show ?thesis by (cases a) simp
  qed
qed

lemma to_records_filter_map:
  "to_records cols rs =
     map (\<lambda>r. \<lparr>pdate = fst r, vals = row_entry cols (snd r)\<rparr>)
       (filter (\<lambda>r. row_entry cols (snd r) \<noteq> []) rs)"
  by (induction rs) (simp_all add: Let_def)

lemma resample_last_DataFrame:
  "resample_last period (DataFrame data) =
     \<lparr>columns = columns (DataFrame data),
      rows = map (\<lambda>l. (l, \<lambda>col. carried col (bucket period data l))) (labels period data)\<rparr>"
proof -
  let ?g = "\<lambda>p. (pdate p, map_of (vals p))"
  have sorted: "sort_key fst (rows (DataFrame data)) = map ?g (sort_key pdate data)"
    by (simp add: DataFrame_def sort_key_map)
  have lab: "map (\<lambda>r. period (fst r)) (map ?g (sort_key pdate data))
      = map (\<lambda>p. period (pdate p)) (sort_key pdate data)"
    by simp
  have cellf: "\<And>l col. last_valid (map (\<lambda>r. snd r col)
        (filter (\<lambda>r. period (fst r) = l) (map ?g (sort_key pdate data))))
      = carried col (bucket period data l)"
    by (simp add: filter_map comp_def bucket_def last_valid_carried)
  show ?thesis
    unfolding resample_last_def Let_def sorted lab cellf labels_def ..
qed

lemma resample_pipeline:
  "to_records (columns (dropna_all (resample_last period (DataFrame data))))
     (rows (dropna_all (resample_last period (DataFrame data))))
   = map (\<lambda>l. \<lparr>pdate = l,
                vals = row_entry (columns (DataFrame data)) (\<lambda>col. carried col (bucket period data l))\<rparr>)
       (filter (has_data period data) (labels period data))"
proof -
  let ?cols = "columns (DataFrame data)"
  let ?F = "\<lambda>l col. carried col (bucket period data l)"
  have ne: "\<And>l. row_entry ?cols (?F l) \<noteq> [] \<longleftrightarrow> has_data period data l"
    by (simp add: row_entry_Nil_iff has_data_def list_ex_iff)
  have hd: "has_data period data = (\<lambda>l. list_ex (\<lambda>c. ?F l c \<noteq> None) ?cols)"
    by (simp add: fun_eq_iff has_data_def)
  show ?thesis
    unfolding resample_last_DataFrame dropna_all_def to_records_filter_map
    by (simp add: filter_map comp_def ne) (simp add: hd)
qed

lemma sorted_labels: "sorted_wrt (<) (labels period data)"
  by (simp add: strict_sorted_iff labels_def)

lemma set_labels: "set (labels period data) = (\<lambda>p. period (pdate p)) ` set data"
  by (simp add: labels_def)

lemma length_labels: "length (labels period data) \<le> length data"
proof -
  have "length (labels period data) \<le> length (map (\<lambda>p. period (pdate p)) (sort_key pdate data))"
    unfolding labels_def length_sort by (rule length_remdups_leq)
  then show ?thesis by simp
qed

lemma set_columns_DataFrame:
  "set (columns (DataFrame data)) = (\<Union>p \<in> set data. fst ` set (vals p))"
  by (auto simp: DataFrame_def)

lemma carried_Some_column:
  assumes "carried s ps \<noteq> None" "set ps \<subseteq> set data"
  shows "s \<in> set (columns (DataFrame data)) \<and> ps \<noteq> []"
proof -
  let ?qs = "filter (\<lambda>p. map_of (vals p) s \<noteq> None) ps"
  from assms(1) have ne: "?qs \<noteq> []" by (auto simp: carried_def split: list.splits)
  then obtain p where p: "p \<in> set ps" "map_of (vals p) s \<noteq> None"
    by (metis (mono_tags, lifting) filter_False mem_Collect_eq set_filter)
  then have "s \<in> fst ` set (vals p)" by (simp add: map_of_eq_None_iff)
  with p assms(2) show ?thesis by (auto simp: set_columns_DataFrame)
qed

lemma has_data_iff:
  "has_data period data l \<longleftrightarrow> (\<exists>s. carried s (bucket period data l) \<noteq> None)"
proof
  assume "has_data period data l"
  then show "\<exists>s. carried s (bucket period data l) \<noteq> None"
    by (auto simp: has_data_def list_ex_iff)
next
  assume "\<exists>s. carried s (bucket period data l) \<noteq> None"
  then obtain s where s: "carried s (bucket period data l) \<noteq> None" ..
  have "set (bucket period data l) \<subseteq> set data" by (auto simp: bucket_def)
  from carried_Some_column [OF s this] s show "has_data period data l"
    by (auto simp: has_data_def list_ex_iff)
qed

lemma has_data_label:
  assumes "has_data period data l"
  shows "l \<in> set (labels period data)"
proof -
  from assms obtain s where s: "carried s (bucket period data l) \<noteq> None"
    by (auto simp: has_data_iff)
  have "set (bucket period data l) \<subseteq> set data" by (auto simp: bucket_def)
  from carried_Some_column [OF s this] have "bucket period data l \<noteq> []" by simp
  then obtain p where "p \<in> set (bucket period data l)" by (cases "bucket period data l") auto
  then show ?thesis by (auto simp: bucket_def set_labels)
qed

lemma map_of_resampled_row:
  "map_of (row_entry (columns (DataFrame data)) (\<lambda>col. carried col (bucket period data l))) s
     = map_option round2 (carried s (bucket period data l))"
proof (cases "s \<in> set (columns (DataFrame data))")
  case True
  then show ?thesis by (simp add: map_of_row_entry)
next
  case False
  have "set (bucket period data l) \<subseteq> set data" by (auto simp: bucket_def)
  with False carried_Some_column [of s "bucket period data l" data]
  have "carried s (bucket period data l) = None" by blast
  with False show ?thesis by (simp add: map_of_row_entry)
qed

lemma parse_index_valid:
  "list_all (\<lambda>p. valid_date (pdate p)) data \<Longrightarrow> parse_index (DataFrame data) = Inr (DataFrame data)"
  by (simp add: parse_index_def DataFrame_def list_all_iff)

lemma resample_data_period:
  assumes "list_all (\<lambda>p. valid_date (pdate p)) data"
    and "frequency = ''weekly'' \<or> frequency = ''monthly''"
  shows "resample_data data frequency =
     Inr (map (\<lambda>l. \<lparr>pdate = l,
                     vals = row_entry (columns (DataFrame data))
                              (\<lambda>col. carried col (bucket (period_end frequency) data l))\<rparr>)
            (filter (has_data (period_end frequency) data) (labels (period_end frequency) data)))"
proof (cases "data = []")
  case True
  then show ?thesis using assms(2) by (auto simp: resample_data_def labels_def)
next
  case False
  from assms(2) show ?thesis
  proof
    assume f: "frequency = ''weekly''"
    show ?thesis
      using False
      by (simp add: resample_data_def parse_index_valid [OF assms(1)] f period_end_def Let_def
          resample_pipeline)
  next
    assume f: "frequency = ''monthly''"
    show ?thesis
      using False
      by (simp add: resample_data_def parse_index_valid [OF assms(1)] f period_end_def Let_def
          resample_pipeline)
  qed
qed

text \<open>
  Claim C1, as amended. For a non-empty series of calendar days and the frequency weekly
  or monthly, \<^verbatim>\<open>resample_data\<close> returns one row for every bucket in which some symbol has a
  value, and the row holds, for every symbol, the last value of that symbol among the
  points of the bucket in the order of their dates, rounded to two decimals: a value that
  the last point of the bucket lacks is carried forward from the latest earlier point of
  the bucket that has one, and a symbol without a value anywhere in the bucket is absent
  from the row.
\<close>

theorem C1_last_valid_value_per_symbol:
  assumes "list_all (\<lambda>p. valid_date (pdate p)) data"
    and "data \<noteq> []"
    and "frequency = ''weekly'' \<or> frequency = ''monthly''"
  shows "\<exists>out. resample_data data frequency = Inr out
     \<and> distinct (map pdate out)
     \<and> set (map pdate out) = {l. \<exists>s. carried s (bucket (period_end frequency) data l) \<noteq> None}
     \<and> (\<forall>r \<in> set out. \<forall>s.
           map_of (vals r) s
            = map_option round2 (carried s (bucket (period_end frequency) data (pdate r))))"
proof -
  let ?P = "period_end frequency"
  let ?out = "map (\<lambda>l. \<lparr>pdate = l,
                     vals = row_entry (columns (DataFrame data))
                              (\<lambda>col. carried col (bucket ?P data l))\<rparr>)
            (filter (has_data ?P data) (labels ?P data))"
  have r: "resample_data data frequency = Inr ?out"
    by (rule resample_data_period [OF assms(1,3)])
  have d: "map pdate ?out = filter (has_data ?P data) (labels ?P data)"
    by (simp add: comp_def)
  have 0: "distinct (map pdate ?out)"
    unfolding d using sorted_labels [of ?P data] by (simp add: strict_sorted_iff)
  have "set (map pdate ?out) = {l. has_data ?P data l}"
    unfolding d using has_data_label [of ?P data] by auto
  then have 1: "set (map pdate ?out) = {l. \<exists>s. carried s (bucket ?P data l) \<noteq> None}"
    by (simp only: has_data_iff)
  have 2: "\<forall>r \<in> set ?out. \<forall>s.
      map_of (vals r) s = map_option round2 (carried s (bucket ?P data (pdate r)))"
    by (auto simp: map_of_resampled_row)
  from r 0 1 2 show ?thesis by blast
qed

lemmas cal_defs = valid_date_def days_in_month_def is_leap_def ordinal_def days_before_year_def
  days_before_month_def upto.simps weekday_def plus_days_def week_end_def month_end_def

lemmas frame_defs = resample_data_def parse_index_def DataFrame_def resample_last_def dropna_all_def
  last_valid_def row_entry_def round2_def round_half_even_def Let_def

text \<open>
  The claim as it was stated, a snapshot of the last row, fails. Monday 2025-01-06 has SPY
  and QQQ, Tuesday 2025-01-07 has SPY only; both fall in the week that ends on Sunday
  2025-01-12, and the row of that week holds the QQQ of Monday, which the last point of
  the bucket does not have.
\<close>

theorem C1_last_row_snapshot_counterexample:
  "resample_data
     [\<lparr>pdate = (2025, 1, 6), vals = [(''SPY'', 100), (''QQQ'', 100)]\<rparr>,
      \<lparr>pdate = (2025, 1, 7), vals = [(''SPY'', 101)]\<rparr>] ''weekly''
   = Inr [\<lparr>pdate = (2025, 1, 12), vals = [(''SPY'', 101), (''QQQ'', 100)]\<rparr>]
   \<and> week_end (2025, 1, 6) = (2025, 1, 12) \<and> week_end (2025, 1, 7) = (2025, 1, 12)
   \<and> map_of (vals \<lparr>pdate = (2025, 1, 7), vals = [(''SPY'', 101)]\<rparr>) ''QQQ'' = None"
proof -
  have w: "week_end (2025, 1, 6) = (2025, 1, 12)" "week_end (2025, 1, 7) = (2025, 1, 12)"
    by (simp_all add: cal_defs)
  show ?thesis
    by (simp add: frame_defs w valid_date_def days_in_month_def is_leap_def)
qed

theorem C1_last_valid_value_per_symbol_witness:
  "list_all (\<lambda>p. valid_date (pdate p))
     [\<lparr>pdate = (2025, 1, 6), vals = [(''SPY'', 100), (''QQQ'', 100)]\<rparr>,
      \<lparr>pdate = (2025, 1, 8), vals = [(''SPY'', 102)]\<rparr>]
   \<and> resample_data
        [\<lparr>pdate = (2025, 1, 6), vals = [(''SPY'', 100), (''QQQ'', 100)]\<rparr>,
         \<lparr>pdate = (2025, 1, 8), vals = [(''SPY'', 102)]\<rparr>] ''weekly''
      = Inr [\<lparr>pdate = (2025, 1, 12), vals = [(''SPY'', 102), (''QQQ'', 100)]\<rparr>]
   \<and> map_option round2 (carried ''QQQ'' (bucket (period_end ''weekly'')
        [\<lparr>pdate = (2025, 1, 6), vals = [(''SPY'', 100), (''QQQ'', 100)]\<rparr>,
         \<lparr>pdate = (2025, 1, 8), vals = [(''SPY'', 102)]\<rparr>] (2025, 1, 12))) = Some 100"
proof -
  let ?D = "[\<lparr>pdate = (2025, 1, 6), vals = [(''SPY'', 100), (''QQQ'', 100)]\<rparr>,
             \<lparr>pdate = (2025, 1, 8), vals = [(''SPY'', 102)]\<rparr>]"
  let ?R = "\<lparr>pdate = (2025, 1, 12), vals = [(''SPY'', 102), (''QQQ'', 100)]\<rparr>"
  have v: "list_all (\<lambda>p. valid_date (pdate p)) ?D"
    by (simp add: valid_date_def days_in_month_def is_leap_def)
  have w: "week_end (2025, 1, 6) = (2025, 1, 12)" "week_end (2025, 1, 8) = (2025, 1, 12)"
    by (simp_all add: cal_defs)
  have e: "resample_data ?D ''weekly'' = Inr [?R]"
    by (simp add: frame_defs w valid_date_def days_in_month_def is_leap_def)
  from C1_last_valid_value_per_symbol [OF v, of "''weekly''"]
  obtain out where o: "resample_data ?D ''weekly'' = Inr out"
    and c: "\<forall>r \<in> set out. \<forall>s. map_of (vals r) s
              = map_option round2 (carried s (bucket (period_end ''weekly'') ?D (pdate r)))"
    by auto
  from o e have "out = [?R]" by simp
  then have "?R \<in> set out" by (simp only: list.set_intros)
  from c [rule_format, OF this, of "''QQQ''"]
  have "map_option round2 (carried ''QQQ'' (bucket (period_end ''weekly'') ?D (2025, 1, 12)))
      = Some 100" by simp
  with v e show ?thesis by simp
qed

lemma is_month_end_month_end: "is_month_end (month_end dt)"
  by (cases dt) (simp add: is_month_end_def month_end_def)

text \<open>
  Claim C7, as amended. For a series of calendar days, the dates of the monthly resampling
  are strictly increasing, each is the last day of a month and the month end of a date of
  the series, and the monthly and the weekly resampling each have at most as many rows as
  the series.
\<close>

theorem C7_resample_dates_and_counts:
  assumes "list_all (\<lambda>p. valid_date (pdate p)) data"
  shows "\<exists>w m. resample_data data ''weekly'' = Inr w \<and> resample_data data ''monthly'' = Inr m
     \<and> sorted_wrt (<) (map pdate m)
     \<and> (\<forall>r \<in> set m. is_month_end (pdate r) \<and> (\<exists>p \<in> set data. pdate r = month_end (pdate p)))
     \<and> length m \<le> length data \<and> length w \<le> length data"
proof -
  let ?out = "\<lambda>P. map (\<lambda>l. \<lparr>pdate = l,
                     vals = row_entry (columns (DataFrame data))
                              (\<lambda>col. carried col (bucket P data l))\<rparr>)
            (filter (has_data P data) (labels P data))"
  have w: "resample_data data ''weekly'' = Inr (?out week_end)"
    using resample_data_period [OF assms, of "''weekly''"] by (simp add: period_end_def)
  have m: "resample_data data ''monthly'' = Inr (?out month_end)"
    using resample_data_period [OF assms, of "''monthly''"] by (simp add: period_end_def)
  have d: "\<And>P. map pdate (?out P) = filter (has_data P data) (labels P data)"
    by (simp add: comp_def)
  have s: "sorted_wrt (<) (map pdate (?out month_end))"
    unfolding d by (rule sorted_wrt_filter) (rule sorted_labels)
  have len: "\<And>P. length (?out P) \<le> length data"
  proof -
    fix P
    have "length (?out P) \<le> length (labels P data)" by simp
    also have "\<dots> \<le> length data" by (rule length_labels)
    finally show "length (?out P) \<le> length data" .
  qed
  have e: "\<forall>r \<in> set (?out month_end).
      is_month_end (pdate r) \<and> (\<exists>p \<in> set data. pdate r = month_end (pdate p))"
  proof
    fix r assume "r \<in> set (?out month_end)"
    then have "pdate r \<in> set (labels month_end data)" by auto
    then obtain p where p: "p \<in> set data" "pdate r = month_end (pdate p)"
      by (auto simp: set_labels)
    then show "is_month_end (pdate r) \<and> (\<exists>p \<in> set data. pdate r = month_end (pdate p))"
      by (auto simp: is_month_end_month_end)
  qed
  from w m s e len [of month_end] len [of week_end] show ?thesis by blast
qed

text \<open>
  The monthly resampling can have more rows than the weekly one. Monday 2025-03-31 and
  Tuesday 2025-04-01 fall in one week, which ends on Sunday 2025-04-06, and in two
  months.
\<close>

theorem C7_monthly_le_weekly_counterexample:
  "resample_data
     [\<lparr>pdate = (2025, 3, 31), vals = [(''SPY'', 100)]\<rparr>,
      \<lparr>pdate = (2025, 4, 1), vals = [(''SPY'', 101)]\<rparr>] ''monthly''
   = Inr [\<lparr>pdate = (2025, 3, 31), vals = [(''SPY'', 100)]\<rparr>,
          \<lparr>pdate = (2025, 4, 30), vals = [(''SPY'', 101)]\<rparr>]
   \<and> resample_data
     [\<lparr>pdate = (2025, 3, 31), vals = [(''SPY'', 100)]\<rparr>,
      \<lparr>pdate = (2025, 4, 1), vals = [(''SPY'', 101)]\<rparr>] ''weekly''
   = Inr [\<lparr>pdate = (2025, 4, 6), vals = [(''SPY'', 101)]\<rparr>]"
proof -
  have w: "week_end (2025, 3, 31) = (2025, 4, 6)" "week_end (2025, 4, 1) = (2025, 4, 6)"
    by (simp_all add: cal_defs)
  have m: "month_end (2025, 3, 31) = (2025, 3, 31)" "month_end (2025, 4, 1) = (2025, 4, 30)"
    by (simp_all add: cal_defs)
  show ?thesis
    by (simp add: frame_defs w m valid_date_def days_in_month_def is_leap_def)
qed

theorem C7_resample_dates_and_counts_witness:
  "list_all (\<lambda>p. valid_date (pdate p))
     [\<lparr>pdate = (2025, 1, 30), vals = [(''SPY'', 100)]\<rparr>,
      \<lparr>pdate = (2025, 1, 31), vals = [(''SPY'', 101)]\<rparr>,
      \<lparr>pdate = (2025, 2, 3), vals = [(''SPY'', 102)]\<rparr>]
   \<and> resample_data
     [\<lparr>pdate = (2025, 1, 30), vals = [(''SPY'', 100)]\<rparr>,
      \<lparr>pdate = (2025, 1, 31), vals = [(''SPY'', 101)]\<rparr>,
      \<lparr>pdate = (2025, 2, 3), vals = [(''SPY'', 102)]\<rparr>] ''monthly''
   = Inr [\<lparr>pdate = (2025, 1, 31), vals = [(''SPY'', 101)]\<rparr>,
          \<lparr>pdate = (2025, 2, 28), vals = [(''SPY'', 102)]\<rparr>]
   \<and> sorted_wrt (<) [(2025, 1, 31), (2025, 2, 28) :: date]
   \<and> is_month_end (2025, 1, 31) \<and> is_month_end (2025, 2, 28)"
proof -
  let ?D = "[\<lparr>pdate = (2025, 1, 30), vals = [(''SPY'', 100)]\<rparr>,
      \<lparr>pdate = (2025, 1, 31), vals = [(''SPY'', 101)]\<rparr>,
      \<lparr>pdate = (2025, 2, 3), vals = [(''SPY'', 102)]\<rparr>]"
  let ?M = "[\<lparr>pdate = (2025, 1, 31), vals = [(''SPY'', 101)]\<rparr>,
          \<lparr>pdate = (2025, 2, 28), vals = [(''SPY'', 102)]\<rparr>]"
  have v: "list_all (\<lambda>p. valid_date (pdate p)) ?D"
    by (simp add: valid_date_def days_in_month_def is_leap_def)
  have m: "month_end (2025, 1, 30) = (2025, 1, 31)" "month_end (2025, 1, 31) = (2025, 1, 31)"
    "month_end (2025, 2, 3) = (2025, 2, 28)"
    by (simp_all add: cal_defs)
  have e: "resample_data ?D ''monthly'' = Inr ?M"
    by (simp add: frame_defs m valid_date_def days_in_month_def is_leap_def)
  from C7_resample_dates_and_counts [OF v]
  obtain mm where o: "resample_data ?D ''monthly'' = Inr mm"
    and s: "sorted_wrt (<) (map pdate mm)"
    and me: "\<forall>r \<in> set mm. is_month_end (pdate r) \<and> (\<exists>p \<in> set ?D. pdate r = month_end (pdate p))"
    by blast
  from o e have mm: "mm = ?M" by simp
  from s have s': "sorted_wrt (<) [(2025, 1, 31), (2025, 2, 28) :: date]"
    unfolding mm by simp
  from me have "is_month_end (2025, 1, 31) \<and> is_month_end (2025, 2, 28)"
    unfolding mm by simp
  with v e s' show ?thesis by blast
qed

end
